theory Spec2Isabelle
  imports Main "HOL-Library.Multiset"
begin

section \<open>The todo table\<close>

text \<open>
  \<^verbatim>\<open>class Todo(db.Model)\<close> of \<^verbatim>\<open>app.py\<close>: one row of the table \<^verbatim>\<open>todo\<close>. The primary key
  is a natural number: the store hands out keys from 1 upwards and the routes'
  \<^verbatim>\<open><int:id>\<close> converter accepts unsigned digit strings only. The field \<^verbatim>\<open>id\<close> is called
  \<open>id_todo\<close> here, \<open>id\<close> being the identity function of HOL. A timestamp is the reading of
  the server's clock (\<^verbatim>\<open>datetime.utcnow\<close>), counted in its smallest unit.
\<close>

type_synonym timestamp = int

record Todo =
  id_todo :: nat
  title :: string
  completed :: bool
  created_at :: timestamp

text \<open>
  The table is the list of its rows, in the order of their insertion. The configured
  database is SQLite (\<^verbatim>\<open>sqlite:///todo.db\<close>); what the handlers ask of it is written out
  below: lookup by primary key, insert with a key of the store's choice, update and delete
  of the rows with a given key, and a query ordered by \<^verbatim>\<open>created_at\<close>.
\<close>

type_synonym store = "Todo list"

definition pk_unique :: "store \<Rightarrow> bool" where
  "pk_unique db = distinct (map id_todo db)"

text \<open>The invariant of section 3 of the specification: no stored title is empty.\<close>

definition titles_nonempty :: "store \<Rightarrow> bool" where
  "titles_nonempty db = list_all (\<lambda>r. title r \<noteq> []) db"

text \<open>The row with a given primary key, if there is one.\<close>

definition select_by_id :: "store \<Rightarrow> nat \<Rightarrow> Todo option" where
  "select_by_id db i = find (\<lambda>r. id_todo r = i) db"

text \<open>
  An \<^verbatim>\<open>INTEGER\<close> of SQLite is a signed 64-bit integer. The routes' \<^verbatim>\<open><int:id>\<close> converter
  accepts every string of digits, so a handler can be given a larger id; the database
  driver refuses to bind it as the parameter of a query and raises \<^verbatim>\<open>OverflowError\<close>.
\<close>

definition sqlite_max_integer :: nat where
  "sqlite_max_integer = 9223372036854775807"

text \<open>
  The key of an inserted row: an \<^verbatim>\<open>INTEGER PRIMARY KEY\<close> column that is given no value
  receives one more than the largest key in the table, and 1 in an empty table.
\<close>

definition next_id :: "store \<Rightarrow> nat" where
  "next_id db = Suc (fold max (map id_todo db) 0)"

text \<open>
  \<^verbatim>\<open>new_todo = Todo(title=title)\<close> as \<^verbatim>\<open>db.session.add\<close> and \<^verbatim>\<open>db.session.commit\<close> write
  it: the store chooses the key and the column defaults fill \<^verbatim>\<open>completed\<close> with
  \<^verbatim>\<open>False\<close> and \<^verbatim>\<open>created_at\<close> with the clock's reading \<open>now\<close>. The title is stored as it
  is given: the handlers do not look at its length, and SQLite does not enforce the
  length of a \<^verbatim>\<open>VARCHAR(200)\<close> column.
\<close>

definition new_todo :: "timestamp \<Rightarrow> string \<Rightarrow> store \<Rightarrow> Todo" where
  "new_todo now t db =
     \<lparr>id_todo = next_id db, title = t, completed = False, created_at = now\<rparr>"

definition session_add :: "timestamp \<Rightarrow> string \<Rightarrow> store \<Rightarrow> store" where
  "session_add now t db = db @ [new_todo now t db]"

text \<open>
  The commit of a changed object writes the change to the rows with the object's key;
  \<^verbatim>\<open>db.session.delete\<close> removes them.
\<close>

definition session_update :: "nat \<Rightarrow> (Todo \<Rightarrow> Todo) \<Rightarrow> store \<Rightarrow> store" where
  "session_update i f db = map (\<lambda>r. if id_todo r = i then f r else r) db"

definition session_delete :: "nat \<Rightarrow> store \<Rightarrow> store" where
  "session_delete i db = filter (\<lambda>r. id_todo r \<noteq> i) db"

text \<open>
  \<^verbatim>\<open>Todo.query.order_by(Todo.created_at.desc()).all()\<close>: all rows, the latest
  \<^verbatim>\<open>created_at\<close> first. The source does not say in which order rows of equal
  \<^verbatim>\<open>created_at\<close> come; the model keeps them in table order, and no theorem below depends on
  that choice.
\<close>

definition order_by_created_at_desc :: "store \<Rightarrow> Todo list" where
  "order_by_created_at_desc db = sort_key (\<lambda>r. - created_at r) db"

section \<open>Requests, responses and the handlers\<close>

text \<open>
  A handler fails in two ways: with the 404 that \<^verbatim>\<open>get_or_404\<close> raises when the lookup
  finds no row (\<open>NotFound\<close>), and with the \<^verbatim>\<open>OverflowError\<close> of the lookup of an id above
  \<open>sqlite_max_integer\<close>, which no handler catches and the server answers with a 500
  (\<open>OverflowError\<close>). In both the handler stops before it writes anything. A handler that
  does not fail answers with the rendered listing or with a redirect to a URL;
  \<^verbatim>\<open>url_for('index')\<close> is the path \<^verbatim>\<open>/\<close>. \<^verbatim>\<open>request.form.get('title')\<close> is \<open>None\<close> when
  the form has no field \<^verbatim>\<open>title\<close>.
\<close>

datatype error = NotFound | OverflowError

datatype response = Rendered "Todo list" | Redirect string

type_synonym result = "(error + response) \<times> store"

definition url_for_index :: string where
  "url_for_index = ''/''"

text \<open>\<^verbatim>\<open>Todo.query.get(id)\<close> and \<^verbatim>\<open>Todo.query.get_or_404(id)\<close>.\<close>

definition query_get :: "store \<Rightarrow> nat \<Rightarrow> error + Todo option" where
  "query_get db i =
     (if sqlite_max_integer < i then Inl OverflowError else Inr (select_by_id db i))"

definition get_or_404 :: "store \<Rightarrow> nat \<Rightarrow> error + Todo" where
  "get_or_404 db i =
     (case query_get db i of
        Inl e \<Rightarrow> Inl e
      | Inr None \<Rightarrow> Inl NotFound
      | Inr (Some r) \<Rightarrow> Inr r)"

text \<open>Python's truth value of \<^verbatim>\<open>title\<close> in \<^verbatim>\<open>if title:\<close>, for \<open>None\<close> or a string.\<close>

fun truthy :: "string option \<Rightarrow> bool" where
  "truthy None = False"
| "truthy (Some t) = (t \<noteq> [])"

definition index :: "store \<Rightarrow> result" where
  "index db = (Inr (Rendered (order_by_created_at_desc db)), db)"

definition add_todo :: "timestamp \<Rightarrow> string option \<Rightarrow> store \<Rightarrow> result" where
  "add_todo now form_title db =
     (case form_title of
        None \<Rightarrow> (Inr (Redirect url_for_index), db)
      | Some t \<Rightarrow>
          if truthy (Some t) then (Inr (Redirect url_for_index), session_add now t db)
          else (Inr (Redirect url_for_index), db))"

definition toggle_todo :: "nat \<Rightarrow> store \<Rightarrow> result" where
  "toggle_todo i db =
     (case get_or_404 db i of
        Inl e \<Rightarrow> (Inl e, db)
      | Inr todo \<Rightarrow>
          (Inr (Redirect url_for_index),
           session_update (id_todo todo) (\<lambda>r. r\<lparr>completed := \<not> completed todo\<rparr>) db))"

definition delete_todo :: "nat \<Rightarrow> store \<Rightarrow> result" where
  "delete_todo i db =
     (case get_or_404 db i of
        Inl e \<Rightarrow> (Inl e, db)
      | Inr todo \<Rightarrow> (Inr (Redirect url_for_index), session_delete (id_todo todo) db))"

definition edit_todo :: "nat \<Rightarrow> string option \<Rightarrow> store \<Rightarrow> result" where
  "edit_todo i form_title db =
     (case get_or_404 db i of
        Inl e \<Rightarrow> (Inl e, db)
      | Inr todo \<Rightarrow>
          (case form_title of
             None \<Rightarrow> (Inr (Redirect url_for_index), db)
           | Some t \<Rightarrow>
               if truthy (Some t)
               then (Inr (Redirect url_for_index),
                     session_update (id_todo todo) (\<lambda>r. r\<lparr>title := t\<rparr>) db)
               else (Inr (Redirect url_for_index), db)))"

text \<open>
  The five routes, and a run of the application: the requests served one after the other,
  each with the clock's reading at its time.
\<close>

datatype request =
    GetIndex
  | PostAdd "string option"
  | GetToggle nat
  | GetDelete nat
  | PostEdit nat "string option"

fun dispatch :: "timestamp \<Rightarrow> request \<Rightarrow> store \<Rightarrow> result" where
  "dispatch now GetIndex db = index db"
| "dispatch now (PostAdd form_title) db = add_todo now form_title db"
| "dispatch now (GetToggle i) db = toggle_todo i db"
| "dispatch now (GetDelete i) db = delete_todo i db"
| "dispatch now (PostEdit i form_title) db = edit_todo i form_title db"

fun run :: "(timestamp \<times> request) list \<Rightarrow> store \<Rightarrow> store" where
  "run [] db = db"
| "run ((now, rq) # rest) db = run rest (snd (dispatch now rq db))"

text \<open>Two rows for the examples.\<close>

definition buy_milk :: Todo where
  "buy_milk = \<lparr>id_todo = 1, title = ''Buy milk'', completed = False, created_at = 10\<rparr>"

definition walk_dog :: Todo where
  "walk_dog = \<lparr>id_todo = 2, title = ''Walk dog'', completed = True, created_at = 20\<rparr>"

section \<open>Lookup\<close>

lemma select_by_id_None: "(select_by_id db i = None) = (i \<notin> id_todo ` set db)"
  by (auto simp: select_by_id_def find_None_iff)

lemma select_by_id_Some_id: "select_by_id db i = Some r \<Longrightarrow> id_todo r = i"
  by (auto simp: select_by_id_def find_Some_iff)

lemma select_by_id_Some_mem: "select_by_id db i = Some r \<Longrightarrow> r \<in> set db"
  by (auto simp: select_by_id_def find_Some_iff)

lemma query_get_found:
  "(query_get db i = Inr (Some r)) = (i \<le> sqlite_max_integer \<and> select_by_id db i = Some r)"
  by (auto simp: query_get_def)

lemma query_get_Some_id: "query_get db i = Inr (Some r) \<Longrightarrow> id_todo r = i"
  by (auto simp: query_get_found dest: select_by_id_Some_id)

lemma query_get_in_range: "i \<le> sqlite_max_integer \<Longrightarrow> query_get db i = Inr (select_by_id db i)"
  by (simp add: query_get_def)

lemma get_or_404_NotFound:
  "(get_or_404 db i = Inl NotFound) = (i \<le> sqlite_max_integer \<and> i \<notin> id_todo ` set db)"
  by (auto simp: get_or_404_def query_get_def select_by_id_None [symmetric]
      split: option.splits)

lemma get_or_404_OverflowError:
  "(get_or_404 db i = Inl OverflowError) = (sqlite_max_integer < i)"
  by (auto simp: get_or_404_def query_get_def split: option.splits)

lemma get_or_404_found: "query_get db i = Inr (Some r) \<Longrightarrow> get_or_404 db i = Inr r"
  by (simp add: get_or_404_def)

section \<open>The store's operations\<close>

text \<open>The key of an inserted row is larger than every key in the table.\<close>

lemma fold_max_ge_init: "(a::nat) \<le> fold max xs a"
proof (induction xs arbitrary: a)
  case Nil
  show ?case by simp
next
  case (Cons x xs)
  have "a \<le> max x a" by simp
  also have "\<dots> \<le> fold max xs (max x a)" by (rule Cons.IH)
  finally show ?case by simp
qed

lemma fold_max_ge_mem: "x \<in> set xs \<Longrightarrow> (x::nat) \<le> fold max xs a"
proof (induction xs arbitrary: a)
  case Nil
  then show ?case by simp
next
  case (Cons y ys)
  show ?case
  proof (cases "x = y")
    case True
    have "x \<le> max y a" using True by simp
    also have "\<dots> \<le> fold max ys (max y a)" by (rule fold_max_ge_init)
    finally show ?thesis by simp
  next
    case False
    with Cons.prems have "x \<in> set ys" by simp
    then show ?thesis using Cons.IH by simp
  qed
qed

lemma next_id_fresh: "r \<in> set db \<Longrightarrow> id_todo r < next_id db"
  using fold_max_ge_mem [of "id_todo r" "map id_todo db" 0]
  by (simp add: next_id_def less_Suc_eq_le)

lemma next_id_not_stored: "next_id db \<notin> id_todo ` set db"
  using next_id_fresh by fastforce

lemma select_by_id_update:
  assumes "\<And>r. id_todo (f r) = id_todo r"
  shows "select_by_id (session_update i f db) j =
         (if j = i then map_option f (select_by_id db i) else select_by_id db j)"
  using assms by (induction db) (auto simp: select_by_id_def session_update_def)

lemma select_by_id_delete:
  "select_by_id (session_delete i db) j = (if j = i then None else select_by_id db j)"
  by (induction db) (auto simp: select_by_id_def session_delete_def)

lemma set_session_delete: "set (session_delete i db) = {r \<in> set db. id_todo r \<noteq> i}"
  by (auto simp: session_delete_def)

lemma pk_unique_delete_mset:
  "pk_unique db \<Longrightarrow> select_by_id db i = Some r \<Longrightarrow> mset db = add_mset r (mset (session_delete i db))"
proof (induction db)
  case Nil
  then show ?case by (simp add: select_by_id_def)
next
  case (Cons x xs)
  show ?case
  proof (cases "id_todo x = i")
    case True
    with Cons.prems have rx: "r = x" by (simp add: select_by_id_def)
    from Cons.prems have "id_todo x \<notin> id_todo ` set xs"
      by (simp add: pk_unique_def)
    with True have "\<forall>y \<in> set xs. id_todo y \<noteq> i"
      by blast
    then have "session_delete i xs = xs"
      by (simp add: session_delete_def)
    with True rx show ?thesis by (simp add: session_delete_def)
  next
    case False
    with Cons.prems have "select_by_id xs i = Some r" "pk_unique xs"
      by (auto simp: select_by_id_def pk_unique_def)
    with Cons.IH have "mset xs = add_mset r (mset (session_delete i xs))" by simp
    with False show ?thesis by (simp add: session_delete_def)
  qed
qed

text \<open>
  The primary key stays unique: an update keeps the keys, a delete removes rows, and an
  insert takes a key larger than all stored ones. So every store that the application
  reaches from the empty table has unique keys.
\<close>

lemma ids_session_update:
  assumes "\<And>r. id_todo (f r) = id_todo r"
  shows "map id_todo (session_update i f db) = map id_todo db"
  using assms by (induction db) (simp_all add: session_update_def)

lemma pk_unique_add: "pk_unique db \<Longrightarrow> pk_unique (session_add now t db)"
  using next_id_not_stored [of db]
  by (simp add: pk_unique_def session_add_def new_todo_def)

lemma pk_unique_delete: "pk_unique db \<Longrightarrow> pk_unique (session_delete i db)"
  by (simp add: pk_unique_def session_delete_def distinct_map_filter)

lemma pk_unique_dispatch: "pk_unique db \<Longrightarrow> pk_unique (snd (dispatch now rq db))"
proof (cases rq)
  case GetIndex
  assume "pk_unique db"
  with GetIndex show ?thesis by (simp add: index_def)
next
  case (PostAdd form_title)
  assume "pk_unique db"
  with PostAdd show ?thesis
    by (cases form_title) (simp_all add: add_todo_def pk_unique_add)
next
  case (GetToggle i)
  assume "pk_unique db"
  with GetToggle show ?thesis
    by (cases "get_or_404 db i") (simp_all add: toggle_todo_def pk_unique_def ids_session_update)
next
  case (GetDelete i)
  assume "pk_unique db"
  with GetDelete show ?thesis
    by (cases "get_or_404 db i") (simp_all add: delete_todo_def pk_unique_delete)
next
  case (PostEdit i form_title)
  assume "pk_unique db"
  with PostEdit show ?thesis
    by (cases "get_or_404 db i"; cases form_title)
      (simp_all add: edit_todo_def pk_unique_def ids_session_update)
qed

lemma pk_unique_run: "pk_unique db \<Longrightarrow> pk_unique (run reqs db)"
proof (induction reqs arbitrary: db)
  case Nil
  then show ?case by simp
next
  case (Cons a reqs)
  obtain now rq where a: "a = (now, rq)" by (cases a)
  from Cons.prems have "pk_unique (snd (dispatch now rq db))"
    by (rule pk_unique_dispatch)
  then have "pk_unique (run reqs (snd (dispatch now rq db)))"
    by (rule Cons.IH)
  with a show ?case by simp
qed

lemma pk_unique_reachable: "pk_unique (run reqs [])"
  by (rule pk_unique_run) (simp add: pk_unique_def)

section \<open>Not-Found\<close>

text \<open>
  For an id that SQLite can hold, each operation addressed by an id (toggle, delete, edit,
  with any title field) answers Not-Found exactly when no stored item has that id. An
  operation that fails, in either way, leaves the store as it was.
\<close>

lemma not_found_iff_absent_in_range:
  assumes "i \<le> sqlite_max_integer"
  shows "(fst (toggle_todo i db) = Inl NotFound) = (\<not> (\<exists>r \<in> set db. id_todo r = i))"
    and "(fst (delete_todo i db) = Inl NotFound) = (\<not> (\<exists>r \<in> set db. id_todo r = i))"
    and "(fst (edit_todo i form_title db) = Inl NotFound) = (\<not> (\<exists>r \<in> set db. id_todo r = i))"
proof -
  have absent: "(get_or_404 db i = Inl NotFound) = (\<not> (\<exists>r \<in> set db. id_todo r = i))"
    using assms by (auto simp: get_or_404_NotFound)
  show "(fst (toggle_todo i db) = Inl NotFound) = (\<not> (\<exists>r \<in> set db. id_todo r = i))"
    unfolding absent [symmetric]
    by (cases "get_or_404 db i") (simp_all add: toggle_todo_def)
  show "(fst (delete_todo i db) = Inl NotFound) = (\<not> (\<exists>r \<in> set db. id_todo r = i))"
    unfolding absent [symmetric]
    by (cases "get_or_404 db i") (simp_all add: delete_todo_def)
  show "(fst (edit_todo i form_title db) = Inl NotFound) = (\<not> (\<exists>r \<in> set db. id_todo r = i))"
    unfolding absent [symmetric]
    by (cases "get_or_404 db i"; cases form_title) (simp_all add: edit_todo_def)
qed

lemma failure_keeps_store:
  "fst (toggle_todo i db) = Inl e \<Longrightarrow> snd (toggle_todo i db) = db"
  "fst (delete_todo i db) = Inl e \<Longrightarrow> snd (delete_todo i db) = db"
  "fst (edit_todo i form_title db) = Inl e \<Longrightarrow> snd (edit_todo i form_title db) = db"
proof -
  show "fst (toggle_todo i db) = Inl e \<Longrightarrow> snd (toggle_todo i db) = db"
    by (cases "get_or_404 db i") (simp_all add: toggle_todo_def)
  show "fst (delete_todo i db) = Inl e \<Longrightarrow> snd (delete_todo i db) = db"
    by (cases "get_or_404 db i") (simp_all add: delete_todo_def)
  show "fst (edit_todo i form_title db) = Inl e \<Longrightarrow> snd (edit_todo i form_title db) = db"
    by (cases "get_or_404 db i"; cases form_title) (simp_all add: edit_todo_def split: if_splits)
qed

text \<open>
  Claim C1 asks that, for every id, toggle, delete and edit answer Not-Found (404) exactly
  when no stored item has that id, as the comment on \<^verbatim>\<open>get_or_404\<close> in each handler says
  (``Find todo by ID, or return 404 error if not found''). The code misses the ids above
  \<open>sqlite_max_integer\<close>: the route accepts the id 9223372036854775808, no stored item has
  it, and each of the three operations fails with the \<^verbatim>\<open>OverflowError\<close> of the lookup, a
  500, instead of Not-Found. The store is unchanged.
\<close>

theorem id_above_int64_not_404:
  "\<not> (\<exists>r \<in> set [buy_milk]. id_todo r = 9223372036854775808) \<and>
   toggle_todo 9223372036854775808 [buy_milk] = (Inl OverflowError, [buy_milk]) \<and>
   delete_todo 9223372036854775808 [buy_milk] = (Inl OverflowError, [buy_milk]) \<and>
   edit_todo 9223372036854775808 (Some ''Buy tea'') [buy_milk] = (Inl OverflowError, [buy_milk]) \<and>
   fst (toggle_todo 9223372036854775808 [buy_milk]) \<noteq> Inl NotFound \<and>
   fst (delete_todo 9223372036854775808 [buy_milk]) \<noteq> Inl NotFound \<and>
   fst (edit_todo 9223372036854775808 (Some ''Buy tea'') [buy_milk]) \<noteq> Inl NotFound"
  by (simp add: toggle_todo_def delete_todo_def edit_todo_def get_or_404_def query_get_def
      sqlite_max_integer_def buy_milk_def)

section \<open>Edit, toggle and delete of a stored item\<close>

text \<open>
  A stored item with id \<open>i\<close> is a row \<open>r\<close> that the lookup of \<open>i\<close> returns:
  \<open>query_get db i = Inr (Some r)\<close>.
\<close>

lemma query_get_update:
  assumes "query_get db i = Inr (Some r)" and "\<And>x. id_todo (f x) = id_todo x"
  shows "query_get (session_update i f db) i = Inr (Some (f r))"
  using assms by (simp add: query_get_found select_by_id_update)

lemma toggle_todo_found:
  assumes "query_get db i = Inr (Some r)"
  shows "toggle_todo i db =
    (Inr (Redirect url_for_index), session_update i (\<lambda>x. x\<lparr>completed := \<not> completed r\<rparr>) db)"
  using query_get_Some_id [OF assms] by (simp add: toggle_todo_def get_or_404_found [OF assms])



text \<open>
  Claim C4. For a stored item, toggle answers with the redirect and the item is then the
  same item with its completed flag negated: id, title and created_at are as before. A
  second toggle of the same id gives the item as it was at the start.
\<close>

theorem toggle_flips_completed:
  assumes "query_get db i = Inr (Some r)"
  shows "fst (toggle_todo i db) = Inr (Redirect url_for_index) \<and>
         query_get (snd (toggle_todo i db)) i =
           Inr (Some \<lparr>id_todo = id_todo r, title = title r, completed = (\<not> completed r),
                 created_at = created_at r\<rparr>) \<and>
         query_get (snd (toggle_todo i (snd (toggle_todo i db)))) i = Inr (Some r)"
proof -
  let ?r' = "r\<lparr>completed := \<not> completed r\<rparr>"
  have one: "toggle_todo i db =
      (Inr (Redirect url_for_index), session_update i (\<lambda>x. x\<lparr>completed := \<not> completed r\<rparr>) db)"
    using assms by (rule toggle_todo_found)
  have get1: "query_get (snd (toggle_todo i db)) i = Inr (Some ?r')"
    unfolding one snd_conv using assms by (rule query_get_update) simp
  have two: "toggle_todo i (snd (toggle_todo i db)) =
      (Inr (Redirect url_for_index),
       session_update i (\<lambda>x. x\<lparr>completed := \<not> completed ?r'\<rparr>) (snd (toggle_todo i db)))"
    using get1 by (rule toggle_todo_found)
  have "query_get (snd (toggle_todo i (snd (toggle_todo i db)))) i =
      Inr (Some (?r'\<lparr>completed := \<not> completed ?r'\<rparr>))"
    unfolding two snd_conv using get1 by (rule query_get_update) simp
  then have get2: "query_get (snd (toggle_todo i (snd (toggle_todo i db)))) i = Inr (Some r)"
    by simp
  show ?thesis using one get1 get2 by simp
qed

theorem toggle_flips_completed_witness:
  "query_get [buy_milk, walk_dog] 2 = Inr (Some walk_dog) \<and>
   fst (toggle_todo 2 [buy_milk, walk_dog]) = Inr (Redirect url_for_index) \<and>
   query_get (snd (toggle_todo 2 [buy_milk, walk_dog])) 2 =
     Inr (Some \<lparr>id_todo = 2, title = ''Walk dog'', completed = False, created_at = 20\<rparr>) \<and>
   query_get (snd (toggle_todo 2 (snd (toggle_todo 2 [buy_milk, walk_dog])))) 2 =
     Inr (Some walk_dog)"
proof -
  have h: "query_get [buy_milk, walk_dog] 2 = Inr (Some walk_dog)"
    by (simp add: query_get_def sqlite_max_integer_def select_by_id_def buy_milk_def
        walk_dog_def)
  have f: "id_todo walk_dog = 2" "title walk_dog = ''Walk dog''" "completed walk_dog"
    "created_at walk_dog = 20"
    by (simp_all add: walk_dog_def)
  show ?thesis
    using h toggle_flips_completed [OF h] by (simp add: f)
qed

text \<open>
  Claim C5. For a stored item with id \<open>i\<close>, delete answers with the redirect; the store
  then holds exactly the rows whose id is not \<open>i\<close>, each as it was, and, ids being unique,
  it is the old store less that one item. A toggle, delete or edit (with any title field)
  of id \<open>i\<close> after that answers Not-Found.
\<close>

theorem delete_removes_item:
  assumes "query_get db i = Inr (Some r)"
  shows "fst (delete_todo i db) = Inr (Redirect url_for_index) \<and>
         set (snd (delete_todo i db)) = {x \<in> set db. id_todo x \<noteq> i} \<and>
         (pk_unique db \<longrightarrow> mset db = add_mset r (mset (snd (delete_todo i db)))) \<and>
         fst (toggle_todo i (snd (delete_todo i db))) = Inl NotFound \<and>
         fst (delete_todo i (snd (delete_todo i db))) = Inl NotFound \<and>
         fst (edit_todo i form_title (snd (delete_todo i db))) = Inl NotFound"
proof -
  have rng: "i \<le> sqlite_max_integer" and sel: "select_by_id db i = Some r"
    using assms by (simp_all add: query_get_found)
  have id: "id_todo r = i" using sel by (rule select_by_id_Some_id)
  have del: "delete_todo i db = (Inr (Redirect url_for_index), session_delete i db)"
    using id by (simp add: delete_todo_def get_or_404_found [OF assms])
  have gone: "get_or_404 (session_delete i db) i = Inl NotFound"
    using rng by (simp add: get_or_404_def query_get_in_range select_by_id_delete)
  have m: "pk_unique db \<longrightarrow> mset db = add_mset r (mset (session_delete i db))"
    using sel pk_unique_delete_mset by blast
  have t: "fst (toggle_todo i (session_delete i db)) = Inl NotFound"
    by (simp add: toggle_todo_def gone)
  have d: "fst (delete_todo i (session_delete i db)) = Inl NotFound"
    by (simp add: delete_todo_def gone)
  have e: "fst (edit_todo i form_title (session_delete i db)) = Inl NotFound"
    by (simp add: edit_todo_def gone)
  show ?thesis
    unfolding del using m t d e by (simp add: set_session_delete)
qed

theorem delete_removes_item_witness:
  "query_get [buy_milk, walk_dog] 1 = Inr (Some buy_milk) \<and> pk_unique [buy_milk, walk_dog] \<and>
   fst (delete_todo 1 [buy_milk, walk_dog]) = Inr (Redirect url_for_index) \<and>
   mset [buy_milk, walk_dog] = add_mset buy_milk (mset (snd (delete_todo 1 [buy_milk, walk_dog]))) \<and>
   fst (toggle_todo 1 (snd (delete_todo 1 [buy_milk, walk_dog]))) = Inl NotFound \<and>
   fst (delete_todo 1 (snd (delete_todo 1 [buy_milk, walk_dog]))) = Inl NotFound \<and>
   fst (edit_todo 1 (Some ''Buy tea'') (snd (delete_todo 1 [buy_milk, walk_dog]))) = Inl NotFound"
proof -
  have h: "query_get [buy_milk, walk_dog] 1 = Inr (Some buy_milk)"
    by (simp add: query_get_def sqlite_max_integer_def select_by_id_def buy_milk_def)
  have u: "pk_unique [buy_milk, walk_dog]"
    by (simp add: pk_unique_def buy_milk_def walk_dog_def)
  show ?thesis
    using h u delete_removes_item [OF h, of "Some ''Buy tea''"] by blast
qed

section \<open>The listing\<close>

text \<open>
  What the ordered query returns: the rows of the table, each as often as it is stored,
  with \<^verbatim>\<open>created_at\<close> falling along the list. The head of such a list is the one row
  that is later than all others, when there is one.
\<close>

lemma mset_order_by: "mset (order_by_created_at_desc db) = mset db"
  by (simp add: order_by_created_at_desc_def)

lemma sorted_order_by:
  "sorted_wrt (\<lambda>a b. created_at b \<le> created_at a) (order_by_created_at_desc db)"
proof -
  have "sorted (map (\<lambda>r. - created_at r) (sort_key (\<lambda>r. - created_at r) db))"
    by (rule sorted_sort_key)
  then show ?thesis
    by (simp add: order_by_created_at_desc_def sorted_map)
qed


text \<open>
  Claim C6. For every store, the listing operation has no error path and leaves the
  store as it is; it renders exactly the stored items, ordered by created_at descending.
  On the empty store it renders the empty list.
\<close>

theorem index_lists_all_newest_first:
  "(\<exists>listing. index db = (Inr (Rendered listing), db) \<and> mset listing = mset db \<and>
      sorted_wrt (\<lambda>a b. created_at b \<le> created_at a) listing) \<and>
   index [] = (Inr (Rendered []), [])"
  by (simp add: index_def mset_order_by sorted_order_by)
    (simp add: order_by_created_at_desc_def)

section \<open>Create\<close>




section \<open>Titles\<close>

text \<open>Each handler keeps the titles non-empty, and so does every run.\<close>

lemma titles_nonempty_update:
  assumes "titles_nonempty db" and "\<And>r. title r \<noteq> [] \<Longrightarrow> title (f r) \<noteq> []"
  shows "titles_nonempty (session_update i f db)"
  using assms by (auto simp: titles_nonempty_def session_update_def list_all_iff)

lemma titles_nonempty_index: "titles_nonempty db \<Longrightarrow> titles_nonempty (snd (index db))"
  by (simp add: index_def)

lemma titles_nonempty_add:
  "titles_nonempty db \<Longrightarrow> titles_nonempty (snd (add_todo now form_title db))"
  by (cases form_title)
    (auto simp: add_todo_def session_add_def new_todo_def titles_nonempty_def)

lemma titles_nonempty_toggle:
  "titles_nonempty db \<Longrightarrow> titles_nonempty (snd (toggle_todo i db))"
  by (cases "get_or_404 db i") (simp_all add: toggle_todo_def titles_nonempty_update)

lemma titles_nonempty_delete:
  "titles_nonempty db \<Longrightarrow> titles_nonempty (snd (delete_todo i db))"
  by (cases "get_or_404 db i")
    (auto simp: delete_todo_def session_delete_def titles_nonempty_def list_all_iff)

lemma titles_nonempty_edit:
  "titles_nonempty db \<Longrightarrow> titles_nonempty (snd (edit_todo i form_title db))"
  by (cases "get_or_404 db i"; cases form_title)
    (simp_all add: edit_todo_def titles_nonempty_update)

lemma titles_nonempty_dispatch:
  "titles_nonempty db \<Longrightarrow> titles_nonempty (snd (dispatch now rq db))"
  by (cases rq)
    (simp_all add: titles_nonempty_index titles_nonempty_add titles_nonempty_toggle
      titles_nonempty_delete titles_nonempty_edit)

lemma titles_nonempty_run: "titles_nonempty db \<Longrightarrow> titles_nonempty (run reqs db)"
proof (induction reqs arbitrary: db)
  case Nil
  then show ?case by simp
next
  case (Cons a reqs)
  obtain now rq where a: "a = (now, rq)" by (cases a)
  from Cons.prems have "titles_nonempty (snd (dispatch now rq db))"
    by (rule titles_nonempty_dispatch)
  then have "titles_nonempty (run reqs (snd (dispatch now rq db)))"
    by (rule Cons.IH)
  with a show ?case by simp
qed

text \<open>
  Claim C7. Every operation (create, list, toggle, edit, delete) preserves the invariant
  that every stored item has a non-empty title, and no store reached from the empty store
  by any sequence of requests holds an item whose title is empty.
\<close>

theorem title_never_empty:
  "(titles_nonempty db \<longrightarrow> titles_nonempty (snd (dispatch now rq db))) \<and>
   titles_nonempty (run reqs []) \<and>
   (\<forall>r \<in> set (run reqs []). title r \<noteq> [])"
proof -
  have e: "titles_nonempty []" by (simp add: titles_nonempty_def)
  have r: "titles_nonempty (run reqs [])" using e by (rule titles_nonempty_run)
  then have "\<forall>r \<in> set (run reqs []). title r \<noteq> []"
    by (simp add: titles_nonempty_def list_all_iff)
  with r show ?thesis by (simp add: titles_nonempty_dispatch)
qed

theorem title_never_empty_witness:
  "titles_nonempty [buy_milk] \<and>
   titles_nonempty (snd (dispatch 11 (PostEdit 1 (Some [])) [buy_milk])) \<and>
   run [(10, PostAdd (Some ''Buy milk'')), (11, PostAdd (Some [])), (12, PostEdit 1 (Some [])),
        (13, PostAdd None), (14, GetToggle 1), (15, GetIndex)] [] =
     [\<lparr>id_todo = 1, title = ''Buy milk'', completed = True, created_at = 10\<rparr>] \<and>
   list_all (\<lambda>r. title r \<noteq> [])
     (run [(10, PostAdd (Some ''Buy milk'')), (11, PostAdd (Some [])), (12, PostEdit 1 (Some [])),
        (13, PostAdd None), (14, GetToggle 1), (15, GetIndex)] [])"
proof -
  have h: "titles_nonempty [buy_milk]"
    by (simp add: titles_nonempty_def buy_milk_def)
  have r: "run [(10, PostAdd (Some ''Buy milk'')), (11, PostAdd (Some [])),
        (12, PostEdit 1 (Some [])), (13, PostAdd None), (14, GetToggle 1), (15, GetIndex)] [] =
     [\<lparr>id_todo = 1, title = ''Buy milk'', completed = True, created_at = 10\<rparr>]"
    by (simp add: add_todo_def session_add_def new_todo_def next_id_def edit_todo_def
        toggle_todo_def get_or_404_def query_get_def sqlite_max_integer_def select_by_id_def
        session_update_def index_def)
  show ?thesis
    using h r title_never_empty [of "[buy_milk]" 11 "PostEdit 1 (Some [])"
        "[(10, PostAdd (Some ''Buy milk'')), (11, PostAdd (Some [])), (12, PostEdit 1 (Some [])),
          (13, PostAdd None), (14, GetToggle 1), (15, GetIndex)]"]
    by (simp add: list_all_iff)
qed

text \<open>
  Claim C8. In create, and in the edit of a stored item, the empty title is a silent
  no-op: the store is left completely unchanged (no item is inserted or modified), no
  error is reported and the response is the redirect to the listing. An edit with the
  empty title leaves the store unchanged whatever its id.
\<close>

theorem empty_title_is_noop:
  "add_todo now (Some []) db = (Inr (Redirect url_for_index), db) \<and>
   snd (edit_todo i (Some []) db) = db \<and>
   (query_get db i = Inr (Some r) \<longrightarrow>
      edit_todo i (Some []) db = (Inr (Redirect url_for_index), db))"
proof -
  have a: "add_todo now (Some []) db = (Inr (Redirect url_for_index), db)"
    by (simp add: add_todo_def)
  have s: "snd (edit_todo i (Some []) db) = db"
    by (cases "get_or_404 db i") (simp_all add: edit_todo_def)
  have e: "edit_todo i (Some []) db = (Inr (Redirect url_for_index), db)"
    if "query_get db i = Inr (Some r)"
    using that by (simp add: edit_todo_def get_or_404_found)
  show ?thesis using a s e by simp
qed

theorem empty_title_is_noop_witness:
  "query_get [buy_milk, walk_dog] 2 = Inr (Some walk_dog) \<and>
   add_todo 30 (Some []) [buy_milk, walk_dog] = (Inr (Redirect url_for_index), [buy_milk, walk_dog]) \<and>
   edit_todo 2 (Some []) [buy_milk, walk_dog] = (Inr (Redirect url_for_index), [buy_milk, walk_dog])"
proof -
  have h: "query_get [buy_milk, walk_dog] 2 = Inr (Some walk_dog)"
    by (simp add: query_get_def sqlite_max_integer_def select_by_id_def buy_milk_def
        walk_dog_def)
  show ?thesis
    using h empty_title_is_noop [of 30 "[buy_milk, walk_dog]" 2 walk_dog] by simp
qed



text \<open>
  Claim C9 asks that no stored title is longer than 200 characters, as the comment on the
  column \<^verbatim>\<open>title = db.Column(db.String(200), nullable=False)\<close> says (``max 200
  characters''). Neither handler looks at the length of the title and the SQLite table
  does not enforce it: create on the empty store with a title of 201 characters stores all
  201 of them, and so does the edit of a stored item.
\<close>

theorem add_todo_title_over_200:
  "snd (add_todo 0 (Some (replicate 201 CHR ''a'')) []) = [new_todo 0 (replicate 201 CHR ''a'') []] \<and>
   length (title (new_todo 0 (replicate 201 CHR ''a'') [])) = 201 \<and>
   map (\<lambda>r. length (title r)) (snd (edit_todo 1 (Some (replicate 201 CHR ''a'')) [buy_milk])) = [201]"
  by (simp add: add_todo_def session_add_def new_todo_def edit_todo_def get_or_404_def
      query_get_def sqlite_max_integer_def select_by_id_def session_update_def buy_milk_def)

end
